theory Spec2Isabelle
  imports Main "HOL-Library.Sublist"
begin

section \<open>The document editor of OfficeX Documents\<close>

text \<open>
  The development embeds \<^verbatim>\<open>src/DocumentEditor.tsx\<close>: one React function component that
  keeps a document in component state, loads and stores it in an IndexedDB object store
  and saves it through a debounced function (\<^verbatim>\<open>lodash/debounce\<close>, 1000 ms).

  The component is callback driven. Its model is a state record and one function per
  callback of the source; an event names which callback the browser runs next. The
  record holds the values of the \<^verbatim>\<open>useState\<close> cells and what the callbacks leave behind
  in the browser: the object store, the timers that are armed, the requests that are in
  flight and everything written to the store or shown to the user.

  Three libraries are used by the source and are not part of it. They are modelled by
  their documented behaviour:
  \<^item> IndexedDB: an object store created with \<^verbatim>\<open>keyPath: "docId"\<close> holds at most one record
    per key; \<^verbatim>\<open>put\<close> replaces the record with the key of its argument or adds it; \<^verbatim>\<open>get\<close>
    yields the record or \<^verbatim>\<open>undefined\<close>. A request completes in a later task than the one
    that issued it.
  \<^item> lodash \<^verbatim>\<open>debounce(f, 1000)\<close> with default options: a call stores its argument and moves
    the deadline to 1000 ms after the call; when the deadline passes, \<^verbatim>\<open>f\<close> runs once on the
    argument stored last. A call returns at once and never runs \<^verbatim>\<open>f\<close> itself.
  \<^item> React: \<^verbatim>\<open>useCallback(v, deps)\<close> keeps its first value until a dependency changes;
    \<^verbatim>\<open>useEffect(g, deps)\<close> runs \<^verbatim>\<open>g\<close> after the first render and after every render in which
    a dependency changed, after the clean-up function of its previous run; a state setter
    called with a value that differs from the current one causes a render.
\<close>

subsection \<open>Data\<close>

text \<open>\<^verbatim>\<open>interface Document { docId: string; title: string; body: string; }\<close>\<close>

record Document =
  docId :: string
  title :: string
  body :: string

text \<open>A string in a condition of JavaScript counts as true unless it is empty.\<close>

definition truthy :: "string \<Rightarrow> bool" where
  "truthy s = (s \<noteq> [])"

subsection \<open>The object store\<close>

text \<open>
  The object store \<^verbatim>\<open>"documents"\<close> of the database \<^verbatim>\<open>"OfficeXDocs"\<close>, created by
  \<^verbatim>\<open>createObjectStore("documents", { keyPath: "docId" })\<close>. The key of a record is its
  \<^verbatim>\<open>docId\<close> field. The list keeps the records in the order of their first insertion; the
  browser returns them from \<^verbatim>\<open>getAll\<close> in key order, which nothing below depends on.
\<close>

type_synonym object_store = "Document list"

definition store_get :: "string \<Rightarrow> object_store \<Rightarrow> Document option" where
  "store_get k st = find (\<lambda>r. docId r = k) st"

definition store_put :: "Document \<Rightarrow> object_store \<Rightarrow> object_store" where
  "store_put d st =
     (if list_ex (\<lambda>r. docId r = docId d) st
      then map (\<lambda>r. if docId r = docId d then d else r) st
      else st @ [d])"

definition store_getAll :: "object_store \<Rightarrow> Document list" where
  "store_getAll st = st"

text \<open>The outcome of the transaction of a \<^verbatim>\<open>put\<close>, which the browser decides.\<close>

datatype outcome = Committed | TransactionFailed

subsection \<open>The debounced function\<close>

text \<open>
  One value of \<^verbatim>\<open>debounce(async (doc) => {...}, 1000)\<close>. The function it wraps reads
  \<^verbatim>\<open>saveTimeout\<close> from the render that created it (\<open>captured\<close>). \<open>pending\<close> is the
  deadline of the armed timer and the argument of the last call, if a timer is armed.
\<close>

record debounced =
  captured :: "nat option"
  pending :: "(nat \<times> Document) option"

definition wait :: nat where
  "wait = 1000"

definition debounced_call :: "nat \<Rightarrow> Document \<Rightarrow> debounced \<Rightarrow> debounced" where
  "debounced_call now doc f = f\<lparr>pending := Some (now + wait, doc)\<rparr>"

subsection \<open>What the component writes and shows\<close>

datatype emitted =
    Put Document outcome
  | MessageSuccess string
  | MessageError string

fun puts :: "emitted list \<Rightarrow> Document list" where
  "puts [] = []"
| "puts (Put d r # os) = d # puts os"
| "puts (MessageSuccess m # os) = puts os"
| "puts (MessageError m # os) = puts os"

fun messages :: "emitted list \<Rightarrow> emitted list" where
  "messages [] = []"
| "messages (Put d r # os) = messages os"
| "messages (MessageSuccess m # os) = MessageSuccess m # messages os"
| "messages (MessageError m # os) = MessageError m # messages os"

subsection \<open>The state\<close>

text \<open>
  The first seven fields are the component's own: the route parameter and the
  \<^verbatim>\<open>useState\<close> cells. \<open>saveDocument\<close> is the value that \<^verbatim>\<open>useCallback\<close> currently
  returns; \<open>stale\<close> are the debounced functions it returned before, whose timers nothing
  cancels. \<open>saving\<close> are the calls of the wrapped function that wait for the database
  to open, each with the \<^verbatim>\<open>saveTimeout\<close> of its closure and its argument; \<open>loading\<close> are
  the calls of \<^verbatim>\<open>loadDocument\<close> that wait for their record. \<open>timers\<close> are the armed
  timers that hide the indicator, as handle and deadline.
\<close>

record state =
  docIdParam :: "string option"
  document :: Document
  isModalOpen :: bool
  documents :: "Document list"
  searchTerm :: string
  showSaveIndicator :: bool
  saveTimeout :: "nat option"
  saveDocument :: debounced
  stale :: "debounced list"
  saving :: "(nat option \<times> Document) list"
  loading :: "string list"
  timers :: "(nat \<times> nat) list"
  nextTimer :: nat
  clock :: nat
  store :: object_store
  log_out :: "emitted list"

definition clearTimeout :: "nat \<Rightarrow> (nat \<times> nat) list \<Rightarrow> (nat \<times> nat) list" where
  "clearTimeout h ts = filter (\<lambda>t. fst t \<noteq> h) ts"

text \<open>
  \<^verbatim>\<open>if (saveTimeout) { clearTimeout(saveTimeout); }\<close>, where \<^verbatim>\<open>null\<close> and \<^verbatim>\<open>0\<close> count as
  false.
\<close>

fun clear_saveTimeout :: "nat option \<Rightarrow> (nat \<times> nat) list \<Rightarrow> (nat \<times> nat) list" where
  "clear_saveTimeout None ts = ts"
| "clear_saveTimeout (Some h) ts = (if h \<noteq> 0 then clearTimeout h ts else ts)"

subsection \<open>The callbacks of the component\<close>

text \<open>
  The effect on \<^verbatim>\<open>[document, saveDocument]\<close>:
  \<^verbatim>\<open>if (document.docId && document.title && document.body) { saveDocument(document); }\<close>
\<close>

definition autosave_gate :: "Document \<Rightarrow> bool" where
  "autosave_gate d = (truthy (docId d) \<and> truthy (title d) \<and> truthy (body d))"

definition autosave_effect :: "state \<Rightarrow> state" where
  "autosave_effect s =
     (if autosave_gate (document s)
      then s\<lparr>saveDocument := debounced_call (clock s) (document s) (saveDocument s)\<rparr>
      else s)"

text \<open>
  \<^verbatim>\<open>setDocument\<close> is always called with a new object, so the render that follows runs the
  effect on \<^verbatim>\<open>[document, saveDocument]\<close>.
\<close>

definition setDocument :: "Document \<Rightarrow> state \<Rightarrow> state" where
  "setDocument d s = autosave_effect (s\<lparr>document := d\<rparr>)"

text \<open>The two \<^verbatim>\<open>onChange\<close> handlers, of the title input and of the editor.\<close>

definition onChange_title :: "string \<Rightarrow> state \<Rightarrow> state" where
  "onChange_title v s = setDocument ((document s)\<lparr>title := v\<rparr>) s"

definition onChange_body :: "string \<Rightarrow> state \<Rightarrow> state" where
  "onChange_body v s = setDocument ((document s)\<lparr>body := v\<rparr>) s"

text \<open>
  \<^verbatim>\<open>loadDocument(id)\<close> opens the database and asks for the record; the state changes when
  the request succeeds.
\<close>

definition placeholder :: string where
  "placeholder = ''Untitled Document''"

definition seed :: "string \<Rightarrow> Document" where
  "seed i = \<lparr>docId = i, title = placeholder, body = []\<rparr>"

definition loadDocument :: "string \<Rightarrow> state \<Rightarrow> state" where
  "loadDocument i s = s\<lparr>loading := loading s @ [i]\<rparr>"

definition remove_nth :: "nat \<Rightarrow> 'a list \<Rightarrow> 'a list" where
  "remove_nth k xs = take k xs @ drop (Suc k) xs"

definition loadDocument_onsuccess :: "nat \<Rightarrow> state \<Rightarrow> state" where
  "loadDocument_onsuccess k s =
     (if k < length (loading s) then
        (let i = loading s ! k;
             s1 = s\<lparr>loading := remove_nth k (loading s)\<rparr>
         in case store_get i (store s1) of
              Some r \<Rightarrow> setDocument r s1
            | None \<Rightarrow> setDocument (seed i) s1)
      else s)"

text \<open>
  The route changes within \<^verbatim>\<open>/doc/:docId\<close> (a document opened from the list, or the
  navigation after a delete): the component stays mounted, and the effect on \<^verbatim>\<open>[docId]\<close>
  runs when the parameter differs: \<^verbatim>\<open>if (docId) { loadDocument(docId); }\<close>
\<close>

definition navigate :: "string \<Rightarrow> state \<Rightarrow> state" where
  "navigate i s =
     (if docIdParam s = Some i then s
      else (let s1 = s\<lparr>docIdParam := Some i\<rparr>
            in if truthy i then loadDocument i s1 else s1))"

text \<open>
  The timer of a debounced function fires: the wrapped function starts on the stored
  argument, opens the database and leaves its \<^verbatim>\<open>onsuccess\<close> handler behind.
\<close>

definition fire :: "nat \<Rightarrow> debounced \<Rightarrow> (debounced \<times> (nat option \<times> Document) list)" where
  "fire now f =
     (case pending f of
        None \<Rightarrow> (f, [])
      | Some (deadline, doc) \<Rightarrow>
          if deadline \<le> now then (f\<lparr>pending := None\<rparr>, [(captured f, doc)]) else (f, []))"

definition saveDocument_timer :: "state \<Rightarrow> state" where
  "saveDocument_timer s =
     (let (f, calls) = fire (clock s) (saveDocument s)
      in s\<lparr>saveDocument := f, saving := saving s @ calls\<rparr>)"

definition stale_timer :: "nat \<Rightarrow> state \<Rightarrow> state" where
  "stale_timer k s =
     (if k < length (stale s) then
        (let (f, calls) = fire (clock s) (stale s ! k)
         in s\<lparr>stale := (stale s)[k := f], saving := saving s @ calls\<rparr>)
      else s)"

text \<open>
  \<^verbatim>\<open>setSaveTimeout(timeout)\<close> and the render it causes: the clean-up of the effect on
  \<^verbatim>\<open>[saveTimeout]\<close> clears the previous handle, \<^verbatim>\<open>useCallback(debounce(...), [saveTimeout])\<close>
  returns a new debounced function, and the effect on \<^verbatim>\<open>[document, saveDocument]\<close> runs
  because \<^verbatim>\<open>saveDocument\<close> changed.
\<close>

definition setSaveTimeout :: "nat \<Rightarrow> state \<Rightarrow> state" where
  "setSaveTimeout h s =
     (if saveTimeout s = Some h then s
      else autosave_effect
             (s\<lparr>timers := clear_saveTimeout (saveTimeout s) (timers s),
                saveTimeout := Some h,
                stale := stale s @ [saveDocument s],
                saveDocument := \<lparr>captured = Some h, pending = None\<rparr>\<rparr>))"

text \<open>
  The \<^verbatim>\<open>onsuccess\<close> handler inside \<^verbatim>\<open>saveDocument\<close>, for the \<open>k\<close>-th call in flight:
  \<^verbatim>\<open>store.put(doc)\<close>, then the indicator. The handler attaches nothing to the request or
  the transaction, so the outcome of the \<^verbatim>\<open>put\<close> reaches the store and nothing else.
\<close>

definition indicator_ms :: nat where
  "indicator_ms = 2000"

definition saveDocument_onsuccess :: "nat \<Rightarrow> outcome \<Rightarrow> state \<Rightarrow> state" where
  "saveDocument_onsuccess k res s =
     (if k < length (saving s) then
        (let c = fst (saving s ! k);
             doc = snd (saving s ! k);
             s1 = s\<lparr>saving := remove_nth k (saving s),
                    store := (if res = Committed then store_put doc (store s) else store s),
                    log_out := log_out s @ [Put doc res]\<rparr>;
             s2 = s1\<lparr>timers := clear_saveTimeout c (timers s1)\<rparr>;
             s3 = s2\<lparr>showSaveIndicator := True\<rparr>;
             h = nextTimer s3;
             s4 = s3\<lparr>timers := timers s3 @ [(h, clock s3 + indicator_ms)], nextTimer := Suc h\<rparr>
         in setSaveTimeout h s4)
      else s)"

text \<open>The timer set in that handler fires: \<^verbatim>\<open>setShowSaveIndicator(false)\<close>.\<close>

definition indicator_timer :: "nat \<Rightarrow> state \<Rightarrow> state" where
  "indicator_timer h s =
     (if list_ex (\<lambda>t. fst t = h \<and> snd t \<le> clock s) (timers s)
      then s\<lparr>timers := clearTimeout h (timers s), showSaveIndicator := False\<rparr>
      else s)"

text \<open>
  \<^verbatim>\<open>handleManualSave\<close>: \<^verbatim>\<open>await saveDocument(document); message.success(...)\<close>. The call of
  the debounced function returns at once, with \<^verbatim>\<open>undefined\<close> or the promise of the last run
  of the wrapped function. That run ended when it had set its \<^verbatim>\<open>onsuccess\<close> handler
  (\<^verbatim>\<open>indexedDB.open\<close> is taken not to throw), so the message follows in the same task.
\<close>

definition handleManualSave :: "state \<Rightarrow> state" where
  "handleManualSave s =
     (let s1 = s\<lparr>saveDocument := debounced_call (clock s) (document s) (saveDocument s)\<rparr>
      in s1\<lparr>log_out := log_out s1 @ [MessageSuccess ''Document saved successfully'']\<rparr>)"

text \<open>\<^verbatim>\<open>loadAllDocuments\<close>, with the request completed: \<^verbatim>\<open>setDocuments(request.result)\<close>.\<close>

definition loadAllDocuments :: "state \<Rightarrow> state" where
  "loadAllDocuments s = s\<lparr>documents := store_getAll (store s)\<rparr>"

subsection \<open>The list of the modal\<close>






subsection \<open>Executions\<close>

text \<open>
  The component after its first render at the route parameter \<open>p\<close>, over the records
  the database already holds. \<open>u\<close> is the value of \<^verbatim>\<open>uuidv4()\<close>. The effects of the first
  render have run: \<^verbatim>\<open>loadDocument(docId)\<close> is in flight, and the effect on
  \<^verbatim>\<open>[document, saveDocument]\<close> has looked at the initial document.
\<close>

definition initial_docId :: "string option \<Rightarrow> string \<Rightarrow> string" where
  "initial_docId p u = (case p of None \<Rightarrow> u | Some i \<Rightarrow> if truthy i then i else u)"

definition mount :: "string option \<Rightarrow> string \<Rightarrow> object_store \<Rightarrow> state" where
  "mount p u st =
     (let s0 = \<lparr>docIdParam = p,
                document = seed (initial_docId p u),
                isModalOpen = False,
                documents = [],
                searchTerm = [],
                showSaveIndicator = False,
                saveTimeout = None,
                saveDocument = \<lparr>captured = None, pending = None\<rparr>,
                stale = [],
                saving = [],
                loading = [],
                timers = [],
                nextTimer = 1,
                clock = 0,
                store = st,
                log_out = []\<rparr>;
          s1 = (case p of None \<Rightarrow> s0 | Some i \<Rightarrow> if truthy i then loadDocument i s0 else s0)
      in autosave_effect s1)"

text \<open>
  What can happen next: the user types, saves or opens another document, time passes, a
  timer fires, a request completes. A timer can fire once its deadline has passed; the
  requests in flight complete in any order. The menu entry New, which mounts a new
  component, and the deletion of a document are not among the events.
\<close>

datatype event =
    EditTitle string
  | EditBody string
  | ManualSave
  | Navigate string
  | Advance nat
  | SaveTimer
  | StaleTimer nat
  | SaveOpened nat outcome
  | Loaded nat
  | IndicatorTimer nat

fun step :: "event \<Rightarrow> state \<Rightarrow> state" where
  "step (EditTitle v) s = onChange_title v s"
| "step (EditBody v) s = onChange_body v s"
| "step ManualSave s = handleManualSave s"
| "step (Navigate i) s = navigate i s"
| "step (Advance n) s = s\<lparr>clock := clock s + n\<rparr>"
| "step SaveTimer s = saveDocument_timer s"
| "step (StaleTimer k) s = stale_timer k s"
| "step (SaveOpened k res) s = saveDocument_onsuccess k res s"
| "step (Loaded k) s = loadDocument_onsuccess k s"
| "step (IndicatorTimer h) s = indicator_timer h s"

fun run :: "event list \<Rightarrow> state \<Rightarrow> state" where
  "run [] s = s"
| "run (e # es) s = run es (step e s)"

subsection \<open>Notions used in the properties\<close>

text \<open>
  The snapshots that are on their way to the store: the argument held by an armed
  debounce timer, of the current debounced function or of a stale one, and the argument
  of a save that waits for the database.
\<close>

definition pending_docs :: "debounced \<Rightarrow> Document list" where
  "pending_docs f = (case pending f of None \<Rightarrow> [] | Some (deadline, doc) \<Rightarrow> [doc])"

definition stale_docs :: "debounced list \<Rightarrow> Document list" where
  "stale_docs fs = concat (map pending_docs fs)"

definition scheduled :: "state \<Rightarrow> Document list" where
  "scheduled s =
     pending_docs (saveDocument s) @ stale_docs (stale s) @ map snd (saving s)"

text \<open>What the autosave effect passes to \<^verbatim>\<open>saveDocument\<close> when the document is \<open>d\<close>.\<close>

definition forwarded :: "Document \<Rightarrow> Document set" where
  "forwarded d = (if autosave_gate d then {d} else {})"



text \<open>
  An execution in which every manual save finds a document that passes the check of the
  autosave effect.
\<close>

fun manual_saves_checked :: "event list \<Rightarrow> state \<Rightarrow> bool" where
  "manual_saves_checked [] s = True"
| "manual_saves_checked (e # es) s =
     ((if e = ManualSave then autosave_gate (document s) else True) \<and>
      manual_saves_checked es (step e s))"

text \<open>The events in which the user changes the document.\<close>

fun is_edit :: "event \<Rightarrow> bool" where
  "is_edit (EditTitle v) = True"
| "is_edit (EditBody v) = True"
| "is_edit e = False"

text \<open>
  The events of a user who only visits: everything but an edit and a manual save.
\<close>

definition visit_only :: "event \<Rightarrow> bool" where
  "visit_only e = (\<not> is_edit e \<and> e \<noteq> ManualSave)"

text \<open>
  Nothing of the identifier \<open>i\<close> is stored or on its way to the store, and the document
  of the editor, if it is the one of \<open>i\<close>, does not pass the check of the autosave effect.
\<close>

definition unwritten :: "string \<Rightarrow> state \<Rightarrow> bool" where
  "unwritten i s =
     (list_all (\<lambda>r. docId r \<noteq> i) (store s) \<and>
      list_all (\<lambda>d. docId d \<noteq> i) (scheduled s) \<and>
      \<not> (docId (document s) = i \<and> autosave_gate (document s)))"

text \<open>
  An execution without a manual save after each of whose events the document of the
  editor has an empty field.
\<close>

fun emptiness_lasts :: "event list \<Rightarrow> state \<Rightarrow> bool" where
  "emptiness_lasts [] s = True"
| "emptiness_lasts (e # es) s =
     (e \<noteq> ManualSave \<and> \<not> autosave_gate (document (step e s)) \<and>
      emptiness_lasts es (step e s))"

section \<open>Properties\<close>

subsection \<open>Auxiliary facts\<close>

lemma puts_append: "puts (xs @ ys) = puts xs @ puts ys"
  by (induction xs rule: puts.induct) simp_all

lemma messages_append: "messages (xs @ ys) = messages xs @ messages ys"
  by (induction xs rule: messages.induct) simp_all

lemma find_replaced:
  "list_ex (\<lambda>r. docId r = docId d) st \<Longrightarrow>
   find (\<lambda>r. docId r = docId d) (map (\<lambda>r. if docId r = docId d then d else r) st) = Some d"
  by (induction st) auto

lemma find_appended:
  "\<not> list_ex (\<lambda>r. docId r = docId d) st \<Longrightarrow>
   find (\<lambda>r. docId r = docId d) (st @ [d]) = Some d"
  by (induction st) auto

lemma store_get_put: "store_get (docId d) (store_put d st) = Some d"
  by (simp add: store_get_def store_put_def find_replaced find_appended)

lemma document_autosave_effect: "document (autosave_effect s) = document s"
  by (simp add: autosave_effect_def)








subsection \<open>What an event leaves on its way to the store\<close>

lemma pending_docs_call [simp]: "pending_docs (debounced_call now d f) = [d]"
  by (simp add: pending_docs_def debounced_call_def)

lemma pending_docs_new [simp]: "pending_docs \<lparr>captured = c, pending = None\<rparr> = []"
  by (simp add: pending_docs_def)

lemma fire_docs:
  "fire now f = (f', calls) \<Longrightarrow> pending_docs f' @ map snd calls = pending_docs f"
  by (auto simp: fire_def pending_docs_def split: option.splits prod.splits if_splits)

lemma set_remove_nth: "set (remove_nth k xs) \<subseteq> set xs"
  by (auto simp: remove_nth_def dest: in_set_takeD in_set_dropD)

lemma set_store_put: "set (store_put d st) \<subseteq> insert d (set st)"
  by (auto simp: store_put_def)

lemma store_get_in: "store_get i st = Some r \<Longrightarrow> r \<in> set st"
  by (auto simp: store_get_def find_Some_iff)

lemma autosave_effect_fields [simp]:
  "stale (autosave_effect s) = stale s"
  "saving (autosave_effect s) = saving s"
  "store (autosave_effect s) = store s"
  "log_out (autosave_effect s) = log_out s"
  "document (autosave_effect s) = document s"
  "loading (autosave_effect s) = loading s"
  "showSaveIndicator (autosave_effect s) = showSaveIndicator s"
  "docIdParam (autosave_effect s) = docIdParam s"
  "clock (autosave_effect s) = clock s"
  by (simp_all add: autosave_effect_def)

lemma autosave_effect_pending [simp]:
  "pending_docs (saveDocument (autosave_effect s)) =
     (if autosave_gate (document s) then [document s] else pending_docs (saveDocument s))"
  by (simp add: autosave_effect_def)

lemma autosave_effect_pending':
  "set (pending_docs (saveDocument (autosave_effect s))) \<subseteq>
     set (pending_docs (saveDocument s)) \<union> forwarded (document s)"
  by (simp add: autosave_effect_def forwarded_def)

lemma scheduled_autosave_effect:
  "set (scheduled (autosave_effect s)) \<subseteq>
   set (scheduled s) \<union> forwarded (document s)"
  using autosave_effect_pending'[of s] by (auto simp: scheduled_def simp del: autosave_effect_pending)

lemma setDocument_fields [simp]:
  "stale (setDocument x s) = stale s"
  "saving (setDocument x s) = saving s"
  "store (setDocument x s) = store s"
  "log_out (setDocument x s) = log_out s"
  "document (setDocument x s) = x"
  "loading (setDocument x s) = loading s"
  by (simp_all add: setDocument_def)

lemma setDocument_pending [simp]:
  "pending_docs (saveDocument (setDocument x s)) =
     (if autosave_gate x then [x] else pending_docs (saveDocument s))"
  by (simp add: setDocument_def)

lemma scheduled_setDocument:
  "set (scheduled (setDocument x s)) \<subseteq>
   set (scheduled s) \<union> forwarded x"
  using scheduled_autosave_effect[of "s\<lparr>document := x\<rparr>"]
  by (simp add: setDocument_def scheduled_def)

lemma scheduled_timer:
  "set (scheduled (saveDocument_timer s)) = set (scheduled s)"
proof -
  obtain f calls where f: "fire (clock s) (saveDocument s) = (f, calls)" by (cases "fire (clock s) (saveDocument s)")
  from fire_docs[OF f] have "set (pending_docs f) \<union> snd ` set calls = set (pending_docs (saveDocument s))"
    by (metis set_append set_map)
  then show ?thesis using f by (auto simp: saveDocument_timer_def scheduled_def)
qed

lemma stale_docs_update:
  "k < length xs \<Longrightarrow> set (stale_docs (xs[k := y])) \<subseteq> set (stale_docs xs) \<union> set (pending_docs y)"
  unfolding stale_docs_def
  by (induction xs arbitrary: k) (auto split: nat.splits)

lemma stale_docs_nth:
  "k < length xs \<Longrightarrow> set (pending_docs (xs ! k)) \<subseteq> set (stale_docs xs)"
  unfolding stale_docs_def
  by (induction xs arbitrary: k) (auto split: nat.splits simp: nth_Cons)

lemma stale_docs_snoc [simp]: "stale_docs (xs @ [f]) = stale_docs xs @ pending_docs f"
  by (simp add: stale_docs_def)

lemma stale_docs_Nil [simp]: "stale_docs [] = []"
  by (simp add: stale_docs_def)

lemma scheduled_stale_timer:
  "set (scheduled (stale_timer k s)) \<subseteq> set (scheduled s)"
proof (cases "k < length (stale s)")
  case False
  then show ?thesis by (simp add: stale_timer_def)
next
  case True
  obtain f calls where f: "fire (clock s) (stale s ! k) = (f, calls)" by (cases "fire (clock s) (stale s ! k)")
  from fire_docs[OF f] have eq: "set (pending_docs f) \<union> snd ` set calls = set (pending_docs (stale s ! k))"
    by (metis set_append set_map)
  have in_old: "set (pending_docs (stale s ! k)) \<subseteq> set (stale_docs (stale s))"
    using True by (rule stale_docs_nth)
  have upd: "set (stale_docs ((stale s)[k := f])) \<subseteq> set (stale_docs (stale s)) \<union> set (pending_docs f)"
    using True by (rule stale_docs_update)
  have "scheduled (stale_timer k s) = pending_docs (saveDocument s) @ stale_docs ((stale s)[k := f]) @ map snd (saving s) @ map snd calls"
    using f True by (simp add: stale_timer_def scheduled_def)
  with eq in_old upd show ?thesis
    by (auto simp: scheduled_def)
qed

lemma setSaveTimeout_fields [simp]:
  "saving (setSaveTimeout h s) = saving s"
  "store (setSaveTimeout h s) = store s"
  "log_out (setSaveTimeout h s) = log_out s"
  "document (setSaveTimeout h s) = document s"
  "loading (setSaveTimeout h s) = loading s"
  "showSaveIndicator (setSaveTimeout h s) = showSaveIndicator s"
  "docIdParam (setSaveTimeout h s) = docIdParam s"
  "clock (setSaveTimeout h s) = clock s"
  by (simp_all add: setSaveTimeout_def)

lemma scheduled_setSaveTimeout:
  "set (scheduled (setSaveTimeout h s)) \<subseteq>
   set (scheduled s) \<union> forwarded (document s)"
proof (cases "saveTimeout s = Some h")
  case True
  then show ?thesis by (simp add: setSaveTimeout_def)
next
  case False
  define s1 where "s1 = s\<lparr>timers := clear_saveTimeout (saveTimeout s) (timers s),
                saveTimeout := Some h,
                stale := stale s @ [saveDocument s],
                saveDocument := \<lparr>captured = Some h, pending = None\<rparr>\<rparr>"
  have "setSaveTimeout h s = autosave_effect s1"
    using False by (simp add: setSaveTimeout_def s1_def)
  moreover have "set (scheduled s1) = set (scheduled s)"
    by (auto simp: s1_def scheduled_def)
  moreover have "document s1 = document s" by (simp add: s1_def)
  ultimately show ?thesis using scheduled_autosave_effect[of s1] by simp
qed

lemma scheduled_onsuccess:
  "set (scheduled (saveDocument_onsuccess k res s)) \<subseteq>
   set (scheduled s) \<union> forwarded (document s)"
proof (cases "k < length (saving s)")
  case False
  then show ?thesis by (simp add: saveDocument_onsuccess_def)
next
  case True
  define s4 where "s4 = s\<lparr>saving := remove_nth k (saving s),
                    store := (if res = Committed then store_put (snd (saving s ! k)) (store s) else store s),
                    log_out := log_out s @ [Put (snd (saving s ! k)) res],
                    timers := clear_saveTimeout (fst (saving s ! k)) (timers s),
                    showSaveIndicator := True,
                    timers := clear_saveTimeout (fst (saving s ! k)) (timers s) @ [(nextTimer s, clock s + indicator_ms)],
                    nextTimer := Suc (nextTimer s)\<rparr>"
  have eq: "saveDocument_onsuccess k res s = setSaveTimeout (nextTimer s) s4"
    using True by (simp add: saveDocument_onsuccess_def Let_def s4_def)
  have "set (scheduled s4) \<subseteq> set (scheduled s)"
    using set_remove_nth[of k "saving s"] by (auto simp: s4_def scheduled_def)
  moreover have "document s4 = document s" by (simp add: s4_def)
  ultimately show ?thesis
    using scheduled_setSaveTimeout[of "nextTimer s" s4] unfolding eq by auto
qed

lemma onsuccess_fields [simp]:
  "document (saveDocument_onsuccess k res s) = document s"
  "docIdParam (saveDocument_onsuccess k res s) = docIdParam s"
  "loading (saveDocument_onsuccess k res s) = loading s"
  "clock (saveDocument_onsuccess k res s) = clock s"
  by (simp_all add: saveDocument_onsuccess_def Let_def)

lemma scheduled_load:
  "set (scheduled (loadDocument_onsuccess k s)) \<subseteq>
   set (scheduled s) \<union>
   forwarded (document (loadDocument_onsuccess k s))"
proof (cases "k < length (loading s)")
  case False
  then show ?thesis by (auto simp add: loadDocument_onsuccess_def)
next
  case True
  define s1 where "s1 = s\<lparr>loading := remove_nth k (loading s)\<rparr>"
  have s1: "scheduled s1 = scheduled s" by (simp add: s1_def scheduled_def)
  show ?thesis
  proof (cases "store_get (loading s ! k) (store s)")
    case None
    then have "loadDocument_onsuccess k s = setDocument (seed (loading s ! k)) s1"
      using True by (simp add: loadDocument_onsuccess_def Let_def s1_def)
    then show ?thesis using scheduled_setDocument[of "seed (loading s ! k)" s1] by (simp add: s1)
  next
    case (Some r)
    then have "loadDocument_onsuccess k s = setDocument r s1"
      using True by (simp add: loadDocument_onsuccess_def Let_def s1_def)
    then show ?thesis using scheduled_setDocument[of r s1] by (simp add: s1)
  qed
qed

lemma scheduled_step:
  "e \<noteq> ManualSave \<Longrightarrow>
   set (scheduled (step e s)) \<subseteq>
   set (scheduled s) \<union>
   forwarded (document (step e s))"
proof (cases e)
  case (EditTitle v)
  then show ?thesis using scheduled_setDocument[of "(document s)\<lparr>title := v\<rparr>" s]
    by (simp add: onChange_title_def)
next
  case (EditBody v)
  then show ?thesis using scheduled_setDocument[of "(document s)\<lparr>body := v\<rparr>" s]
    by (simp add: onChange_body_def)
next
  case ManualSave
  assume "e \<noteq> ManualSave"
  with ManualSave show ?thesis by simp
next
  case (Navigate i)
  then show ?thesis by (auto simp: navigate_def loadDocument_def scheduled_def Let_def)
next
  case (Advance n)
  then show ?thesis by (auto simp: scheduled_def)
next
  case SaveTimer
  then show ?thesis using scheduled_timer[of s] by auto
next
  case (StaleTimer k)
  then show ?thesis using scheduled_stale_timer[of k s] by auto
next
  case (SaveOpened k res)
  then show ?thesis using scheduled_onsuccess[of k res s] by simp
next
  case (Loaded k)
  then show ?thesis using scheduled_load[of k s] by simp
next
  case (IndicatorTimer h)
  then show ?thesis by (auto simp: indicator_timer_def scheduled_def)
qed

lemma timer_fields [simp]:
  "store (saveDocument_timer s) = store s"
  "log_out (saveDocument_timer s) = log_out s"
  "document (saveDocument_timer s) = document s"
  "store (stale_timer k s) = store s"
  "log_out (stale_timer k s) = log_out s"
  "document (stale_timer k s) = document s"
  "store (indicator_timer h s) = store s"
  "log_out (indicator_timer h s) = log_out s"
  "document (indicator_timer h s) = document s"
  by (simp_all add: saveDocument_timer_def stale_timer_def indicator_timer_def Let_def
      split: prod.splits)

lemma navigate_fields [simp]:
  "store (navigate i s) = store s"
  "log_out (navigate i s) = log_out s"
  "document (navigate i s) = document s"
  "scheduled (navigate i s) = scheduled s"
  by (simp_all add: navigate_def loadDocument_def Let_def scheduled_def)

lemma load_fields [simp]:
  "store (loadDocument_onsuccess k s) = store s"
  "log_out (loadDocument_onsuccess k s) = log_out s"
  by (simp_all add: loadDocument_onsuccess_def Let_def split: option.splits)

lemma edit_fields [simp]:
  "store (onChange_title v s) = store s"
  "log_out (onChange_title v s) = log_out s"
  "store (onChange_body v s) = store s"
  "log_out (onChange_body v s) = log_out s"
  by (simp_all add: onChange_title_def onChange_body_def)

lemma manual_fields [simp]:
  "store (handleManualSave s) = store s"
  "puts (log_out (handleManualSave s)) = puts (log_out s)"
  "document (handleManualSave s) = document s"
  by (simp_all add: handleManualSave_def Let_def puts_append)

lemma onsuccess_store:
  "k < length (saving s) \<Longrightarrow>
   store (saveDocument_onsuccess k res s) =
     (if res = Committed then store_put (snd (saving s ! k)) (store s) else store s)"
  by (simp add: saveDocument_onsuccess_def Let_def)

lemma onsuccess_log:
  "k < length (saving s) \<Longrightarrow>
   log_out (saveDocument_onsuccess k res s) = log_out s @ [Put (snd (saving s ! k)) res]"
  by (simp add: saveDocument_onsuccess_def Let_def)

lemma onsuccess_idle:
  "\<not> k < length (saving s) \<Longrightarrow> saveDocument_onsuccess k res s = s"
  by (simp add: saveDocument_onsuccess_def)

lemma saving_in_scheduled:
  "k < length (saving s) \<Longrightarrow> snd (saving s ! k) \<in> set (scheduled s)"
  by (simp add: scheduled_def)

lemma puts_step:
  "set (puts (log_out (step e s))) \<subseteq> set (puts (log_out s)) \<union> set (scheduled s)"
proof (cases e)
  case (SaveOpened k res)
  show ?thesis
  proof (cases "k < length (saving s)")
    case True
    then show ?thesis using SaveOpened saving_in_scheduled[of k s]
      by (simp add: onsuccess_log puts_append)
  next
    case False
    then show ?thesis using SaveOpened by (simp add: onsuccess_idle)
  qed
qed auto

lemma store_step:
  "set (store (step e s)) \<subseteq> set (store s) \<union> set (scheduled s)"
proof (cases e)
  case (SaveOpened k res)
  show ?thesis
  proof (cases "k < length (saving s)")
    case True
    then show ?thesis
      using SaveOpened saving_in_scheduled[of k s] set_store_put[of "snd (saving s ! k)" "store s"]
      by (auto simp: onsuccess_store)
  next
    case False
    then show ?thesis using SaveOpened by (simp add: onsuccess_idle)
  qed
qed auto

lemma document_load:
  "document (loadDocument_onsuccess k s) = document s \<or>
   document (loadDocument_onsuccess k s) \<in> set (store s) \<or>
   (\<exists>j. document (loadDocument_onsuccess k s) = seed j)"
  by (auto simp: loadDocument_onsuccess_def Let_def dest: store_get_in split: option.splits)

lemma document_step:
  "\<not> is_edit e \<Longrightarrow>
   document (step e s) = document s \<or> document (step e s) \<in> set (store s) \<or>
   (\<exists>j. document (step e s) = seed j)"
  using document_load[of _ s] by (cases e) auto

lemma seed_not_forwarded [simp]: "\<not> autosave_gate (seed j)"
  by (simp add: autosave_gate_def seed_def truthy_def)

lemma quiet_step:
  assumes "saving s = []"
  shows "store (step e s) = store s \<and> puts (log_out (step e s)) = puts (log_out s)"
  using assms by (cases e) (auto simp: onsuccess_idle)

lemma puts_step_new:
  "\<exists>new. puts (log_out (step e s)) = puts (log_out s) @ new \<and> set new \<subseteq> set (scheduled s)"
proof (cases e)
  case (SaveOpened k res)
  show ?thesis
  proof (cases "k < length (saving s)")
    case True
    then show ?thesis using SaveOpened saving_in_scheduled[of k s]
      by (simp add: onsuccess_log puts_append)
  next
    case False
    then show ?thesis using SaveOpened by (simp add: onsuccess_idle)
  qed
qed simp_all

lemma in_forwarded: "x \<in> forwarded d \<longleftrightarrow> x = d \<and> autosave_gate d"
  by (simp add: forwarded_def)

lemma wf_step:
  assumes "e \<noteq> ManualSave"
    and "\<forall>d\<in>set (scheduled s). autosave_gate d"
    and "\<forall>d\<in>set (puts (log_out s)). autosave_gate d"
  shows "(\<forall>d\<in>set (scheduled (step e s)). autosave_gate d) \<and>
         (\<forall>d\<in>set (puts (log_out (step e s))). autosave_gate d)"
  using scheduled_step[OF assms(1), of s] puts_step[of e s] assms(2,3)
  by (auto simp: in_forwarded)

lemma scheduled_manual:
  "set (scheduled (handleManualSave s)) \<subseteq> set (scheduled s) \<union> {document s}"
  by (auto simp: handleManualSave_def Let_def scheduled_def)

lemma checked_step:
  assumes "e = ManualSave \<Longrightarrow> autosave_gate (document s)"
    and "\<forall>d\<in>set (scheduled s). autosave_gate d"
    and "\<forall>d\<in>set (puts (log_out s)). autosave_gate d"
  shows "(\<forall>d\<in>set (scheduled (step e s)). autosave_gate d) \<and>
         (\<forall>d\<in>set (puts (log_out (step e s))). autosave_gate d)"
proof (cases "e = ManualSave")
  case True
  with assms(1) have g: "autosave_gate (document s)" by simp
  from True g assms(2,3) scheduled_manual[of s] show ?thesis by auto
next
  case False
  then show ?thesis by (rule wf_step[OF _ assms(2,3)])
qed

lemma checked_run:
  assumes "manual_saves_checked evs s"
    and "\<forall>d\<in>set (scheduled s). autosave_gate d"
    and "\<forall>d\<in>set (puts (log_out s)). autosave_gate d"
  shows "(\<forall>d\<in>set (scheduled (run evs s)). autosave_gate d) \<and>
         (\<forall>d\<in>set (puts (log_out (run evs s))). autosave_gate d)"
  using assms
proof (induction evs arbitrary: s)
  case Nil
  then show ?case by simp
next
  case (Cons e evs)
  from Cons.prems(1) have e: "e = ManualSave \<Longrightarrow> autosave_gate (document s)"
    and evs: "manual_saves_checked evs (step e s)" by (simp_all split: if_splits)
  from checked_step[OF e Cons.prems(2,3)]
  have a: "\<forall>d\<in>set (scheduled (step e s)). autosave_gate d"
    and b: "\<forall>d\<in>set (puts (log_out (step e s))). autosave_gate d" by blast+
  show ?case unfolding run.simps by (rule Cons.IH[OF evs a b])
qed

lemma autosave_effect_seed: "document s = seed j \<Longrightarrow> autosave_effect s = s"
  by (simp add: autosave_effect_def)

lemma mount_eq:
  "mount p u st =
     \<lparr>docIdParam = p,
      document = seed (initial_docId p u),
      isModalOpen = False,
      documents = [],
      searchTerm = [],
      showSaveIndicator = False,
      saveTimeout = None,
      saveDocument = \<lparr>captured = None, pending = None\<rparr>,
      stale = [],
      saving = [],
      loading = (case p of None \<Rightarrow> [] | Some i \<Rightarrow> if truthy i then [i] else []),
      timers = [],
      nextTimer = 1,
      clock = 0,
      store = st,
      log_out = []\<rparr>"
proof (cases p)
  case None
  then show ?thesis
    by (simp add: mount_def autosave_effect_seed[of _ "initial_docId p u"])
next
  case (Some i)
  then show ?thesis
    by (simp add: mount_def loadDocument_def autosave_effect_seed[of _ "initial_docId p u"])
qed

lemma scheduled_mount [simp]: "scheduled (mount p u st) = []"
  by (simp add: mount_eq scheduled_def)

lemma log_mount [simp]: "log_out (mount p u st) = []"
  by (simp add: mount_eq)

lemma emptiness_step:
  assumes "e \<noteq> ManualSave" and "\<not> autosave_gate (document (step e s))"
  shows "set (scheduled (step e s)) \<subseteq> set (scheduled s)"
  using scheduled_step[OF assms(1), of s] assms(2) by (auto simp: in_forwarded)

lemma emptiness_run:
  assumes "emptiness_lasts evs s"
  shows "set (scheduled (run evs s)) \<subseteq> set (scheduled s) \<and>
         (\<exists>new. puts (log_out (run evs s)) = puts (log_out s) @ new \<and>
                set new \<subseteq> set (scheduled s))"
  using assms
proof (induction evs arbitrary: s)
  case Nil
  then show ?case by simp
next
  case (Cons e evs)
  from Cons.prems have e: "e \<noteq> ManualSave" and g: "\<not> autosave_gate (document (step e s))"
    and rest: "emptiness_lasts evs (step e s)" by auto
  have sub: "set (scheduled (step e s)) \<subseteq> set (scheduled s)" by (rule emptiness_step[OF e g])
  obtain n1 where n1: "puts (log_out (step e s)) = puts (log_out s) @ n1" "set n1 \<subseteq> set (scheduled s)"
    using puts_step_new[of e s] by blast
  from Cons.IH[OF rest] obtain n2 where
    ih: "set (scheduled (run evs (step e s))) \<subseteq> set (scheduled (step e s))"
        "puts (log_out (run evs (step e s))) = puts (log_out (step e s)) @ n2"
        "set n2 \<subseteq> set (scheduled (step e s))" by blast
  have "puts (log_out (run (e # evs) s)) = puts (log_out s) @ (n1 @ n2)"
    using n1 ih by simp
  moreover have "set (n1 @ n2) \<subseteq> set (scheduled s)" using n1 ih sub by auto
  moreover have "set (scheduled (run (e # evs) s)) \<subseteq> set (scheduled s)" using ih sub by auto
  ultimately show ?case by blast
qed

lemma unwritten_step:
  assumes u: "unwritten i s" and v: "visit_only e"
  shows "unwritten i (step e s)"
proof -
  from u have st: "\<forall>r\<in>set (store s). docId r \<noteq> i"
    and sc: "\<forall>d\<in>set (scheduled s). docId d \<noteq> i"
    and doc: "\<not> (docId (document s) = i \<and> autosave_gate (document s))"
    by (simp_all add: unwritten_def list_all_iff)
  from v have ne: "e \<noteq> ManualSave" and ed: "\<not> is_edit e" by (simp_all add: visit_only_def)
  have doc': "\<not> (docId (document (step e s)) = i \<and> autosave_gate (document (step e s)))"
    using document_step[OF ed, of s] doc st by auto
  have st': "\<forall>r\<in>set (store (step e s)). docId r \<noteq> i"
    using store_step[of e s] st sc by blast
  have sc': "\<forall>d\<in>set (scheduled (step e s)). docId d \<noteq> i"
    using scheduled_step[OF ne, of s] sc doc' by (auto simp: in_forwarded)
  from st' sc' doc' show ?thesis by (simp add: unwritten_def list_all_iff)
qed

lemma unwritten_run:
  "unwritten i s \<Longrightarrow> list_all visit_only evs \<Longrightarrow> unwritten i (run evs s)"
proof (induction evs arbitrary: s)
  case Nil
  then show ?case by simp
next
  case (Cons e evs)
  from Cons.prems have e: "visit_only e" and evs: "list_all visit_only evs" by simp_all
  show ?case unfolding run.simps
    by (rule Cons.IH[OF unwritten_step[OF Cons.prems(1) e] evs])
qed

lemma unwritten_get: "unwritten i s \<Longrightarrow> store_get i (store s) = None"
  by (auto simp: unwritten_def store_get_def list_all_iff find_None_iff)

lemma load_not_found:
  assumes "k < length (loading s)" and "loading s ! k = i" and "store_get i (store s) = None"
  shows "document (loadDocument_onsuccess k s) = seed i \<and>
         store (loadDocument_onsuccess k s) = store s \<and>
         scheduled (loadDocument_onsuccess k s) = scheduled s \<and>
         log_out (loadDocument_onsuccess k s) = log_out s"
  using assms by (simp add: loadDocument_onsuccess_def Let_def scheduled_def)

subsection \<open>The store and the list of the modal\<close>

text \<open>
  C7. A save of the document \<open>d\<close> waits for the database, and a request of
  \<^verbatim>\<open>loadDocument\<close> for the identifier of \<open>d\<close> is in flight. When the handler of the save has
  run \<^verbatim>\<open>store.put(d)\<close> and the transaction has committed, \<^verbatim>\<open>get\<close> yields \<open>d\<close> under its
  \<^verbatim>\<open>docId\<close>, and the handler of \<^verbatim>\<open>loadDocument\<close>, which runs \<^verbatim>\<open>store.get\<close>, makes \<open>d\<close> the
  document of the editor. In the object store itself, \<^verbatim>\<open>get\<close> after \<^verbatim>\<open>put\<close> yields the record
  that was put.
\<close>

theorem put_then_get_roundtrip:
  assumes "k < length (saving s)" and "snd (saving s ! k) = d"
    and "j < length (loading s)" and "loading s ! j = docId d"
  shows "store_get (docId d) (store (saveDocument_onsuccess k Committed s)) = Some d \<and>
         document (loadDocument_onsuccess j (saveDocument_onsuccess k Committed s)) = d \<and>
         document (run [SaveOpened k Committed, Loaded j] s) = d \<and>
         store_get (docId d) (store_put d st) = Some d"
proof -
  define s1 where "s1 = saveDocument_onsuccess k Committed s"
  have g: "store_get (docId d) (store s1) = Some d"
    unfolding s1_def using assms(1,2) by (simp add: onsuccess_store store_get_put)
  have l: "loading s1 = loading s" unfolding s1_def by simp
  have "document (loadDocument_onsuccess j s1) = d"
    using assms(3,4) g l by (simp add: loadDocument_onsuccess_def Let_def)
  with g show ?thesis unfolding s1_def by (simp add: store_get_put)
qed

text \<open>
  An instance: the document \<open>a\<close> is stored with the body \<open>x\<close>; its body becomes \<open>xy\<close>, the
  user leaves for \<open>b\<close> and returns to \<open>a\<close> when the save of \<open>xy\<close> waits for the database.
\<close>

theorem put_then_get_roundtrip_witness:
  "0 < length (saving
     (run [Loaded 0, EditBody ''x'', Advance 1000, SaveTimer, SaveOpened 0 Committed, EditBody ''xy'',
        Advance 500, Navigate ''b'', Loaded 0, Advance 500, SaveTimer, Navigate ''a'']
        (mount (Some ''a'') ''u'' []))) \<and>
   snd (saving
     (run [Loaded 0, EditBody ''x'', Advance 1000, SaveTimer, SaveOpened 0 Committed, EditBody ''xy'',
        Advance 500, Navigate ''b'', Loaded 0, Advance 500, SaveTimer, Navigate ''a'']
        (mount (Some ''a'') ''u'' [])) ! 0) =
     \<lparr>docId = ''a'', title = ''Untitled Document'', body = ''xy''\<rparr> \<and>
   0 < length (loading
     (run [Loaded 0, EditBody ''x'', Advance 1000, SaveTimer, SaveOpened 0 Committed, EditBody ''xy'',
        Advance 500, Navigate ''b'', Loaded 0, Advance 500, SaveTimer, Navigate ''a'']
        (mount (Some ''a'') ''u'' []))) \<and>
   loading
     (run [Loaded 0, EditBody ''x'', Advance 1000, SaveTimer, SaveOpened 0 Committed, EditBody ''xy'',
        Advance 500, Navigate ''b'', Loaded 0, Advance 500, SaveTimer, Navigate ''a'']
        (mount (Some ''a'') ''u'' [])) ! 0 =
     docId \<lparr>docId = ''a'', title = ''Untitled Document'', body = ''xy''\<rparr> \<and>
   store
     (run [Loaded 0, EditBody ''x'', Advance 1000, SaveTimer, SaveOpened 0 Committed, EditBody ''xy'',
        Advance 500, Navigate ''b'', Loaded 0, Advance 500, SaveTimer, Navigate ''a'']
        (mount (Some ''a'') ''u'' [])) =
     [\<lparr>docId = ''a'', title = ''Untitled Document'', body = ''x''\<rparr>] \<and>
   document (run [SaveOpened 0 Committed, Loaded 0]
     (run [Loaded 0, EditBody ''x'', Advance 1000, SaveTimer, SaveOpened 0 Committed, EditBody ''xy'',
        Advance 500, Navigate ''b'', Loaded 0, Advance 500, SaveTimer, Navigate ''a'']
        (mount (Some ''a'') ''u'' []))) =
     \<lparr>docId = ''a'', title = ''Untitled Document'', body = ''xy''\<rparr>"
proof -
  have h1: "0 < length (saving
     (run [Loaded 0, EditBody ''x'', Advance 1000, SaveTimer, SaveOpened 0 Committed, EditBody ''xy'',
        Advance 500, Navigate ''b'', Loaded 0, Advance 500, SaveTimer, Navigate ''a'']
        (mount (Some ''a'') ''u'' [])))"
    by code_simp
  have h2: "snd (saving
     (run [Loaded 0, EditBody ''x'', Advance 1000, SaveTimer, SaveOpened 0 Committed, EditBody ''xy'',
        Advance 500, Navigate ''b'', Loaded 0, Advance 500, SaveTimer, Navigate ''a'']
        (mount (Some ''a'') ''u'' [])) ! 0) =
     \<lparr>docId = ''a'', title = ''Untitled Document'', body = ''xy''\<rparr>"
    by code_simp
  have h3: "0 < length (loading
     (run [Loaded 0, EditBody ''x'', Advance 1000, SaveTimer, SaveOpened 0 Committed, EditBody ''xy'',
        Advance 500, Navigate ''b'', Loaded 0, Advance 500, SaveTimer, Navigate ''a'']
        (mount (Some ''a'') ''u'' [])))"
    by code_simp
  have h4: "loading
     (run [Loaded 0, EditBody ''x'', Advance 1000, SaveTimer, SaveOpened 0 Committed, EditBody ''xy'',
        Advance 500, Navigate ''b'', Loaded 0, Advance 500, SaveTimer, Navigate ''a'']
        (mount (Some ''a'') ''u'' [])) ! 0 =
     docId \<lparr>docId = ''a'', title = ''Untitled Document'', body = ''xy''\<rparr>"
    by code_simp
  have h5: "store
     (run [Loaded 0, EditBody ''x'', Advance 1000, SaveTimer, SaveOpened 0 Committed, EditBody ''xy'',
        Advance 500, Navigate ''b'', Loaded 0, Advance 500, SaveTimer, Navigate ''a'']
        (mount (Some ''a'') ''u'' [])) =
     [\<lparr>docId = ''a'', title = ''Untitled Document'', body = ''x''\<rparr>]"
    by code_simp
  from put_then_get_roundtrip[OF h1 h2 h3 h4] h1 h2 h3 h4 h5 show ?thesis by blast
qed



subsection \<open>The debounced save\<close>

text \<open>
  The handler of a completed save sets \<^verbatim>\<open>saveTimeout\<close>, which is the dependency of
  \<^verbatim>\<open>useCallback\<close>: the render that follows has a new debounced function, the effect on
  \<^verbatim>\<open>[document, saveDocument]\<close> runs again and, when the document passes its check, calls
  the new function with the document that was just saved.
\<close>

lemma completion_rearms:
  assumes "k < length (saving s)" and "saveTimeout s \<noteq> Some (nextTimer s)"
    and "autosave_gate (document s)"
  shows "pending (saveDocument (saveDocument_onsuccess k res s)) =
           Some (clock s + 1000, document s)"
  using assms
  by (simp add: saveDocument_onsuccess_def Let_def setSaveTimeout_def autosave_effect_def
      debounced_call_def wait_def)

text \<open>
  C1, at one input. Two changes of the body arrive 100 ms apart in a new document, and
  every timer fires when it is due. The first \<^verbatim>\<open>put\<close> carries the later snapshot and the
  earlier one is never written; 1000 ms after that \<^verbatim>\<open>put\<close> the same snapshot is put again,
  and the timer is armed for a third time.
\<close>

theorem burst_put_repeats:
  "puts (log_out (run [Loaded 0, EditBody ''x'', Advance 100, EditBody ''xy'', Advance 1000,
                      SaveTimer, SaveOpened 0 Committed, Advance 1000, SaveTimer,
                      SaveOpened 0 Committed]
                   (mount (Some ''a'') ''u'' []))) =
     [\<lparr>docId = ''a'', title = ''Untitled Document'', body = ''xy''\<rparr>,
      \<lparr>docId = ''a'', title = ''Untitled Document'', body = ''xy''\<rparr>] \<and>
   pending (saveDocument
     (run [Loaded 0, EditBody ''x'', Advance 100, EditBody ''xy'', Advance 1000,
           SaveTimer, SaveOpened 0 Committed, Advance 1000, SaveTimer,
           SaveOpened 0 Committed]
        (mount (Some ''a'') ''u'' []))) =
     Some (3100, \<lparr>docId = ''a'', title = ''Untitled Document'', body = ''xy''\<rparr>)"
  by code_simp

text \<open>
  The debounced function that a completed save replaces keeps its timer. Here the body
  becomes \<open>x\<close> while the save of \<open>w\<close> waits for the database, and \<open>xy\<close> 250 ms later: the
  replaced function puts \<open>x\<close> while \<open>xy\<close> waits for the timers of its successors.
\<close>

lemma stale_timer_puts_intermediate:
  "puts (log_out (run [Loaded 0, EditBody ''w'', Advance 1000, SaveTimer, Advance 50,
                      EditBody ''x'', Advance 50, SaveOpened 0 Committed, Advance 200,
                      EditBody ''xy'', Advance 750, StaleTimer 0, SaveOpened 0 Committed]
                   (mount (Some ''a'') ''u'' []))) =
     [\<lparr>docId = ''a'', title = ''Untitled Document'', body = ''w''\<rparr>,
      \<lparr>docId = ''a'', title = ''Untitled Document'', body = ''x''\<rparr>]"
  by code_simp

subsection \<open>The manual save\<close>

text \<open>
  C2, as the code has it. The manual save issues no \<^verbatim>\<open>put\<close> in the task of the click: it
  replaces whatever snapshot the debounce timer held by the document of the editor and
  moves the deadline to 1000 ms after the click. Once that time has passed and the timer
  has fired, the save that waits for the database carries that document; the handler that
  serves every debounced save then puts it and shows the indicator.
\<close>

theorem manual_save_restarts_quiet_period:
  "pending (saveDocument (handleManualSave s)) = Some (clock s + 1000, document s) \<and>
   saving (handleManualSave s) = saving s \<and>
   stale (handleManualSave s) = stale s \<and>
   store (handleManualSave s) = store s \<and>
   puts (log_out (handleManualSave s)) = puts (log_out s) \<and>
   saving (run [Advance 1000, SaveTimer] (handleManualSave s)) =
     saving s @ [(captured (saveDocument s), document s)] \<and>
   puts (log_out (run [Advance 1000, SaveTimer, SaveOpened (length (saving s)) Committed]
                    (handleManualSave s))) = puts (log_out s) @ [document s] \<and>
   showSaveIndicator (run [Advance 1000, SaveTimer, SaveOpened (length (saving s)) Committed]
                        (handleManualSave s)) \<and>
   store_get (docId (document s))
     (store (run [Advance 1000, SaveTimer, SaveOpened (length (saving s)) Committed]
               (handleManualSave s))) = Some (document s)"
  by (simp add: handleManualSave_def puts_append Let_def debounced_call_def
      wait_def saveDocument_timer_def fire_def saveDocument_onsuccess_def setSaveTimeout_def
      autosave_effect_def remove_nth_def store_get_put)

text \<open>
  The claim C2 fails at this input: a timer is armed for the time 1000 when the user saves
  at the time 500. The click writes nothing but its message, and at the time 1499 no save
  has started and the store is empty.
\<close>

theorem manual_save_not_immediate:
  "pending (saveDocument (run [Loaded 0, EditBody ''x'', Advance 500] (mount (Some ''a'') ''u'' []))) =
     Some (1000, \<lparr>docId = ''a'', title = ''Untitled Document'', body = ''x''\<rparr>) \<and>
   log_out (run [Loaded 0, EditBody ''x'', Advance 500, ManualSave] (mount (Some ''a'') ''u'' [])) =
     [MessageSuccess ''Document saved successfully''] \<and>
   saving (run [Loaded 0, EditBody ''x'', Advance 500, ManualSave, Advance 999, SaveTimer]
            (mount (Some ''a'') ''u'' [])) = [] \<and>
   store (run [Loaded 0, EditBody ''x'', Advance 500, ManualSave, Advance 999, SaveTimer]
            (mount (Some ''a'') ''u'' [])) = []"
  by code_simp

text \<open>
  C10. The manual save shows its success message in the task of the click: the message is
  the one thing added to what the component has written or shown, no \<^verbatim>\<open>put\<close> has been
  issued and no save is waiting for the database. When the timer it armed has fired and the
  \<^verbatim>\<open>put\<close> has run, the messages are the same whether the transaction committed or failed.
\<close>

theorem manual_save_message_unconditional:
  "log_out (handleManualSave s) =
     log_out s @ [MessageSuccess ''Document saved successfully''] \<and>
   puts (log_out (handleManualSave s)) = puts (log_out s) \<and>
   store (handleManualSave s) = store s \<and>
   saving (handleManualSave s) = saving s \<and>
   messages (log_out (run [Advance 1000, SaveTimer, SaveOpened (length (saving s)) res]
                        (handleManualSave s))) =
     messages (log_out s) @ [MessageSuccess ''Document saved successfully'']"
  by (simp add: handleManualSave_def puts_append messages_append Let_def debounced_call_def
      wait_def saveDocument_timer_def fire_def saveDocument_onsuccess_def setSaveTimeout_def
      autosave_effect_def remove_nth_def)

subsection \<open>The completion of a save\<close>

text \<open>
  C3, as the code has it. The handler does not observe a failed transaction: it shows the
  indicator as it does after a committed \<^verbatim>\<open>put\<close>, adds no message, and leaves the store as
  it was; apart from the store and the outcome noted for the \<^verbatim>\<open>put\<close>, the state is the one
  a committed \<^verbatim>\<open>put\<close> leaves. After it, a manual save schedules the whole document of the
  editor, and so does a change of the body or of the title after which the document
  passes the check of the autosave effect.
\<close>

theorem failed_put_not_observed:
  assumes "k < length (saving s)"
  shows "showSaveIndicator (saveDocument_onsuccess k TransactionFailed s) \<and>
         store (saveDocument_onsuccess k TransactionFailed s) = store s \<and>
         messages (log_out (saveDocument_onsuccess k TransactionFailed s)) = messages (log_out s) \<and>
         saveDocument_onsuccess k TransactionFailed s =
           (saveDocument_onsuccess k Committed s)
             \<lparr>store := store s, log_out := log_out s @ [Put (snd (saving s ! k)) TransactionFailed]\<rparr> \<and>
         pending (saveDocument (handleManualSave (saveDocument_onsuccess k TransactionFailed s))) =
           Some (clock s + 1000, document s) \<and>
         (autosave_gate ((document s)\<lparr>body := v\<rparr>) \<longrightarrow>
            pending (saveDocument (onChange_body v (saveDocument_onsuccess k TransactionFailed s))) =
              Some (clock s + 1000, (document s)\<lparr>body := v\<rparr>)) \<and>
         (autosave_gate ((document s)\<lparr>title := v\<rparr>) \<longrightarrow>
            pending (saveDocument (onChange_title v (saveDocument_onsuccess k TransactionFailed s))) =
              Some (clock s + 1000, (document s)\<lparr>title := v\<rparr>))"
proof -
  define f where "f = saveDocument_onsuccess k TransactionFailed s"
  have d: "document f = document s" and c: "clock f = clock s" unfolding f_def by simp_all
  have a: "showSaveIndicator f \<and> store f = store s \<and>
         messages (log_out f) = messages (log_out s) \<and>
         f = (saveDocument_onsuccess k Committed s)
             \<lparr>store := store s, log_out := log_out s @ [Put (snd (saving s ! k)) TransactionFailed]\<rparr> \<and>
         pending (saveDocument (handleManualSave f)) = Some (clock s + 1000, document s)"
    unfolding f_def using assms
    by (simp add: saveDocument_onsuccess_def Let_def setSaveTimeout_def autosave_effect_def
      messages_append handleManualSave_def debounced_call_def wait_def)
  have b: "autosave_gate ((document s)\<lparr>body := v\<rparr>) \<longrightarrow>
            pending (saveDocument (onChange_body v f)) = Some (clock s + 1000, (document s)\<lparr>body := v\<rparr>)"
    by (simp add: onChange_body_def setDocument_def autosave_effect_def debounced_call_def
        wait_def d c)
  have t: "autosave_gate ((document s)\<lparr>title := v\<rparr>) \<longrightarrow>
            pending (saveDocument (onChange_title v f)) = Some (clock s + 1000, (document s)\<lparr>title := v\<rparr>)"
    by (simp add: onChange_title_def setDocument_def autosave_effect_def debounced_call_def
        wait_def d c)
  from a b t show ?thesis unfolding f_def by blast
qed

text \<open>
  An instance: the save of a new document whose body was changed is in flight; after its
  failure the body is changed again.
\<close>

theorem failed_put_not_observed_witness:
  "0 < length (saving (run [Loaded 0, EditBody ''x'', Advance 1000, SaveTimer] (mount (Some ''a'') ''u'' []))) \<and>
   autosave_gate ((document (run [Loaded 0, EditBody ''x'', Advance 1000, SaveTimer] (mount (Some ''a'') ''u'' [])))
     \<lparr>body := ''xy''\<rparr>) \<and>
   showSaveIndicator
     (saveDocument_onsuccess 0 TransactionFailed
        (run [Loaded 0, EditBody ''x'', Advance 1000, SaveTimer] (mount (Some ''a'') ''u'' []))) \<and>
   messages (log_out
     (saveDocument_onsuccess 0 TransactionFailed
        (run [Loaded 0, EditBody ''x'', Advance 1000, SaveTimer] (mount (Some ''a'') ''u'' [])))) =
   messages (log_out
        (run [Loaded 0, EditBody ''x'', Advance 1000, SaveTimer] (mount (Some ''a'') ''u'' []))) \<and>
   pending (saveDocument (onChange_body ''xy''
     (saveDocument_onsuccess 0 TransactionFailed
        (run [Loaded 0, EditBody ''x'', Advance 1000, SaveTimer] (mount (Some ''a'') ''u'' []))))) =
     Some (clock (run [Loaded 0, EditBody ''x'', Advance 1000, SaveTimer] (mount (Some ''a'') ''u'' [])) + 1000,
           (document (run [Loaded 0, EditBody ''x'', Advance 1000, SaveTimer] (mount (Some ''a'') ''u'' [])))
             \<lparr>body := ''xy''\<rparr>)"
proof -
  have h: "0 < length (saving (run [Loaded 0, EditBody ''x'', Advance 1000, SaveTimer] (mount (Some ''a'') ''u'' [])))"
    by code_simp
  have g: "autosave_gate ((document (run [Loaded 0, EditBody ''x'', Advance 1000, SaveTimer] (mount (Some ''a'') ''u'' [])))
     \<lparr>body := ''xy''\<rparr>)"
    by code_simp
  from failed_put_not_observed[OF h, where v = "''xy''"] h g show ?thesis by blast
qed

text \<open>
  The claim C3 fails at this input: the transaction of the first \<^verbatim>\<open>put\<close> fails, the indicator
  is shown, and the failed \<^verbatim>\<open>put\<close> is all the component has written or shown. A change that
  empties the body after it is not scheduled: the timer holds the snapshot from before.
\<close>

theorem failed_put_shows_saved:
  "showSaveIndicator (run [Loaded 0, EditBody ''x'', Advance 1000, SaveTimer,
                          SaveOpened 0 TransactionFailed] (mount (Some ''a'') ''u'' [])) \<and>
   log_out (run [Loaded 0, EditBody ''x'', Advance 1000, SaveTimer,
                 SaveOpened 0 TransactionFailed] (mount (Some ''a'') ''u'' [])) =
     [Put \<lparr>docId = ''a'', title = ''Untitled Document'', body = ''x''\<rparr> TransactionFailed] \<and>
   pending (saveDocument (run [Loaded 0, EditBody ''x'', Advance 1000, SaveTimer,
                               SaveOpened 0 TransactionFailed, EditBody []]
                            (mount (Some ''a'') ''u'' []))) =
     Some (2000, \<lparr>docId = ''a'', title = ''Untitled Document'', body = ''x''\<rparr>)"
  by code_simp

text \<open>
  C4, as the code has it. The handler of a save in flight shows the indicator whatever
  the route parameter and the document of the editor have become in the meantime; it
  changes neither, and a committed \<^verbatim>\<open>put\<close> stores the snapshot the save carries.
\<close>

theorem stale_completion_shows_indicator:
  assumes "k < length (saving s)"
  shows "showSaveIndicator (saveDocument_onsuccess k res (s\<lparr>docIdParam := p, document := x\<rparr>)) \<and>
         document (saveDocument_onsuccess k res (s\<lparr>docIdParam := p, document := x\<rparr>)) = x \<and>
         docIdParam (saveDocument_onsuccess k res (s\<lparr>docIdParam := p, document := x\<rparr>)) = p \<and>
         store (saveDocument_onsuccess k Committed (s\<lparr>docIdParam := p, document := x\<rparr>)) =
           store_put (snd (saving s ! k)) (store s)"
  using assms
  by (simp add: saveDocument_onsuccess_def Let_def setSaveTimeout_def autosave_effect_def)

text \<open>An instance: the save of the document \<open>a\<close> is in flight, the editor shows \<open>b\<close>.\<close>

theorem stale_completion_shows_indicator_witness:
  "0 < length (saving (run [Loaded 0, EditBody ''x'', Advance 1000, SaveTimer]
                         (mount (Some ''a'') ''u'' []))) \<and>
   showSaveIndicator
     (saveDocument_onsuccess 0 Committed
        ((run [Loaded 0, EditBody ''x'', Advance 1000, SaveTimer] (mount (Some ''a'') ''u'' []))
           \<lparr>docIdParam := Some ''b'', document := seed ''b''\<rparr>)) \<and>
   document
     (saveDocument_onsuccess 0 Committed
        ((run [Loaded 0, EditBody ''x'', Advance 1000, SaveTimer] (mount (Some ''a'') ''u'' []))
           \<lparr>docIdParam := Some ''b'', document := seed ''b''\<rparr>)) = seed ''b''"
proof -
  have h: "0 < length (saving (run [Loaded 0, EditBody ''x'', Advance 1000, SaveTimer]
                                 (mount (Some ''a'') ''u'' [])))"
    by code_simp
  from stale_completion_shows_indicator[OF h, where res = Committed and p = "Some ''b''"
      and x = "seed ''b''"] h
  show ?thesis by blast
qed

text \<open>
  The claim C4 fails at this input: the save of the document \<open>a\<close> waits for the database
  when the route changes to \<open>b\<close>. The save completes, then the request for \<open>b\<close>: the
  editor shows the placeholder document of \<open>b\<close> with the indicator visible.
\<close>

theorem stale_completion_moves_indicator:
  "saving (run [Loaded 0, EditBody ''x'', Advance 1000, SaveTimer, Navigate ''b'']
             (mount (Some ''a'') ''u'' [])) =
     [(None, \<lparr>docId = ''a'', title = ''Untitled Document'', body = ''x''\<rparr>)] \<and>
   docIdParam (run [Loaded 0, EditBody ''x'', Advance 1000, SaveTimer, Navigate ''b'']
                 (mount (Some ''a'') ''u'' [])) = Some ''b'' \<and>
   showSaveIndicator (run [Loaded 0, EditBody ''x'', Advance 1000, SaveTimer, Navigate ''b'',
                           SaveOpened 0 Committed, Loaded 0] (mount (Some ''a'') ''u'' [])) \<and>
   document (run [Loaded 0, EditBody ''x'', Advance 1000, SaveTimer, Navigate ''b'',
                  SaveOpened 0 Committed, Loaded 0] (mount (Some ''a'') ''u'' [])) =
     \<lparr>docId = ''b'', title = ''Untitled Document'', body = []\<rparr>"
  by code_simp

subsection \<open>The check of the autosave effect\<close>

text \<open>
  C5, as the code has it. In an execution from the first render in which every manual
  save finds a document with a non-empty \<^verbatim>\<open>docId\<close>, \<^verbatim>\<open>title\<close> and \<^verbatim>\<open>body\<close>, every document
  handed to \<^verbatim>\<open>put\<close> has the three fields non-empty. In every state, the autosave effect
  leaves the state as it is unless the three fields of the document are non-empty.
\<close>

theorem autosave_puts_well_formed:
  assumes "manual_saves_checked evs (mount p u st)"
  shows "(\<forall>d\<in>set (puts (log_out (run evs (mount p u st)))).
            docId d \<noteq> [] \<and> title d \<noteq> [] \<and> body d \<noteq> []) \<and>
         (autosave_effect s = s \<or>
            docId (document s) \<noteq> [] \<and> title (document s) \<noteq> [] \<and> body (document s) \<noteq> [])"
proof -
  have "\<forall>d\<in>set (puts (log_out (run evs (mount p u st)))). autosave_gate d"
    using checked_run[OF assms] by simp
  moreover have "autosave_effect s = s \<or> autosave_gate (document s)"
    by (simp add: autosave_effect_def)
  ultimately show ?thesis by (simp add: autosave_gate_def truthy_def)
qed

text \<open>
  An instance: the body of a new document is changed and the document is saved by hand.
\<close>

theorem autosave_puts_well_formed_witness:
  "manual_saves_checked
     [Loaded 0, EditBody ''x'', ManualSave, Advance 1000, SaveTimer, SaveOpened 0 Committed]
     (mount (Some ''a'') ''u'' []) \<and>
   puts (log_out (run [Loaded 0, EditBody ''x'', ManualSave, Advance 1000, SaveTimer,
                       SaveOpened 0 Committed] (mount (Some ''a'') ''u'' []))) =
     [\<lparr>docId = ''a'', title = ''Untitled Document'', body = ''x''\<rparr>] \<and>
   list_all (\<lambda>d. docId d \<noteq> [] \<and> title d \<noteq> [] \<and> body d \<noteq> [])
     (puts (log_out (run [Loaded 0, EditBody ''x'', ManualSave, Advance 1000, SaveTimer,
                          SaveOpened 0 Committed] (mount (Some ''a'') ''u'' []))))"
proof -
  have h: "manual_saves_checked
     [Loaded 0, EditBody ''x'', ManualSave, Advance 1000, SaveTimer, SaveOpened 0 Committed]
     (mount (Some ''a'') ''u'' [])"
    by code_simp
  have e: "puts (log_out (run [Loaded 0, EditBody ''x'', ManualSave, Advance 1000, SaveTimer,
                               SaveOpened 0 Committed] (mount (Some ''a'') ''u'' []))) =
     [\<lparr>docId = ''a'', title = ''Untitled Document'', body = ''x''\<rparr>]"
    by code_simp
  from autosave_puts_well_formed[OF h] h e
  show ?thesis unfolding list_all_iff by blast
qed

text \<open>
  The claim C5 fails at this input: the user saves a new document by hand before typing;
  the record that is put, and stored, has an empty body.
\<close>

theorem manual_save_puts_empty_body:
  "puts (log_out (run [Loaded 0, ManualSave, Advance 1000, SaveTimer, SaveOpened 0 Committed]
                   (mount (Some ''a'') ''u'' []))) =
     [\<lparr>docId = ''a'', title = ''Untitled Document'', body = []\<rparr>] \<and>
   store (run [Loaded 0, ManualSave, Advance 1000, SaveTimer, SaveOpened 0 Committed]
            (mount (Some ''a'') ''u'' [])) =
     [\<lparr>docId = ''a'', title = ''Untitled Document'', body = []\<rparr>]"
  by code_simp

text \<open>
  C9, as the code has it. While each event leaves the document of the editor with an
  empty field and the user does not use the manual save, nothing new gets on its way to
  the store: every \<^verbatim>\<open>put\<close> of that time carries a snapshot that was already on its way when
  the time began. If none was, there is no \<^verbatim>\<open>put\<close> and the store stays as it is.
\<close>

theorem empty_field_not_forwarded:
  assumes "emptiness_lasts evs s"
  shows "set (scheduled (run evs s)) \<subseteq> set (scheduled s) \<and>
         (\<exists>new. puts (log_out (run evs s)) = puts (log_out s) @ new \<and>
                set new \<subseteq> set (scheduled s)) \<and>
         (scheduled s = [] \<longrightarrow>
            puts (log_out (run evs s)) = puts (log_out s) \<and> store (run evs s) = store s)"
proof -
  have a: "set (scheduled (run evs s)) \<subseteq> set (scheduled s) \<and>
         (\<exists>new. puts (log_out (run evs s)) = puts (log_out s) @ new \<and>
                set new \<subseteq> set (scheduled s))"
    by (rule emptiness_run[OF assms])
  have b: "scheduled s = [] \<Longrightarrow> emptiness_lasts evs s \<Longrightarrow> store (run evs s) = store s" for evs s
  proof (induction evs arbitrary: s)
    case Nil
    then show ?case by simp
  next
    case (Cons e evs)
    from Cons.prems have e: "e \<noteq> ManualSave" and g: "\<not> autosave_gate (document (step e s))"
      and rest: "emptiness_lasts evs (step e s)" by auto
    from emptiness_step[OF e g] Cons.prems(1) have s1: "scheduled (step e s) = []" by simp
    from Cons.prems(1) have "saving s = []" by (simp add: scheduled_def)
    then have "store (step e s) = store s" using quiet_step by blast
    with Cons.IH[OF s1 rest] show ?case by simp
  qed
  from a b[OF _ assms] show ?thesis by auto
qed

text \<open>
  An instance: the body is emptied while its previous value waits for the timer; that value
  is put, and nothing else gets on its way to the store.
\<close>

theorem empty_field_not_forwarded_witness:
  "emptiness_lasts [EditBody [], Advance 1000, SaveTimer, SaveOpened 0 Committed]
     (run [Loaded 0, EditBody ''x''] (mount (Some ''a'') ''u'' [])) \<and>
   scheduled (run [Loaded 0, EditBody ''x''] (mount (Some ''a'') ''u'' [])) =
     [\<lparr>docId = ''a'', title = ''Untitled Document'', body = ''x''\<rparr>] \<and>
   set (scheduled (run [EditBody [], Advance 1000, SaveTimer, SaveOpened 0 Committed]
                     (run [Loaded 0, EditBody ''x''] (mount (Some ''a'') ''u'' []))))
     \<subseteq> set (scheduled (run [Loaded 0, EditBody ''x''] (mount (Some ''a'') ''u'' [])))"
proof -
  have h: "emptiness_lasts [EditBody [], Advance 1000, SaveTimer, SaveOpened 0 Committed]
     (run [Loaded 0, EditBody ''x''] (mount (Some ''a'') ''u'' []))"
    by code_simp
  have e: "scheduled (run [Loaded 0, EditBody ''x''] (mount (Some ''a'') ''u'' [])) =
     [\<lparr>docId = ''a'', title = ''Untitled Document'', body = ''x''\<rparr>]"
    by code_simp
  from empty_field_not_forwarded[OF h] h e show ?thesis by blast
qed

text \<open>
  The claim C9 fails at this input: the document \<open>a\<close> is stored with the title \<open>T\<close>; the
  user empties the title and saves by hand. The record with the empty title is put and
  replaces the stored one.
\<close>

theorem cleared_title_saved_manually:
  "store (run [Loaded 0, Advance 400, EditTitle [], Advance 300, ManualSave]
            (mount (Some ''a'') ''u'' [\<lparr>docId = ''a'', title = ''T'', body = ''B''\<rparr>])) =
     [\<lparr>docId = ''a'', title = ''T'', body = ''B''\<rparr>] \<and>
   puts (log_out (run [Loaded 0, Advance 400, EditTitle [], Advance 300, ManualSave, Advance 1000,
                       SaveTimer, SaveOpened 0 Committed]
            (mount (Some ''a'') ''u'' [\<lparr>docId = ''a'', title = ''T'', body = ''B''\<rparr>]))) =
     [\<lparr>docId = ''a'', title = [], body = ''B''\<rparr>] \<and>
   store (run [Loaded 0, Advance 400, EditTitle [], Advance 300, ManualSave, Advance 1000,
               SaveTimer, SaveOpened 0 Committed]
            (mount (Some ''a'') ''u'' [\<lparr>docId = ''a'', title = ''T'', body = ''B''\<rparr>])) =
     [\<lparr>docId = ''a'', title = [], body = ''B''\<rparr>]"
  by code_simp

text \<open>
  C6, as the code has it. Let nothing of the identifier \<open>i\<close> be stored or on its way to
  the store. The route changes to \<open>i\<close>, and the user neither edits nor uses the manual
  save. When the request of \<^verbatim>\<open>loadDocument(i)\<close> completes, the document of the editor
  becomes the placeholder document of \<open>i\<close>, and the store and what is on its way to it stay
  as they are. Whatever timers fire and requests complete before and after, \<^verbatim>\<open>get(i)\<close> finds
  nothing, no record that \<^verbatim>\<open>loadAllDocuments\<close> reads with \<^verbatim>\<open>getAll()\<close> has the identifier \<open>i\<close>,
  and no snapshot of \<open>i\<close> is on its way to the store.
\<close>

theorem not_found_seeding:
  assumes "unwritten i s"
    and "list_all visit_only evs1" and "list_all visit_only evs2"
    and "k < length (loading (run (Navigate i # evs1) s))"
    and "loading (run (Navigate i # evs1) s) ! k = i"
  shows "document (step (Loaded k) (run (Navigate i # evs1) s)) = seed i \<and>
         store (step (Loaded k) (run (Navigate i # evs1) s)) = store (run (Navigate i # evs1) s) \<and>
         scheduled (step (Loaded k) (run (Navigate i # evs1) s)) =
           scheduled (run (Navigate i # evs1) s) \<and>
         store_get i (store (run (Navigate i # evs1 @ Loaded k # evs2) s)) = None \<and>
         list_all (\<lambda>d. docId d \<noteq> i)
           (documents (loadAllDocuments (run (Navigate i # evs1 @ Loaded k # evs2) s))) \<and>
         list_all (\<lambda>d. docId d \<noteq> i) (scheduled (run (Navigate i # evs1 @ Loaded k # evs2) s))"
proof -
  define s1 where "s1 = run (Navigate i # evs1) s"
  have v1: "list_all visit_only (Navigate i # evs1)"
    using assms(2) by (simp add: visit_only_def)
  have u1: "unwritten i s1" unfolding s1_def by (rule unwritten_run[OF assms(1) v1])
  have g1: "store_get i (store s1) = None" by (rule unwritten_get[OF u1])
  have a: "document (step (Loaded k) s1) = seed i \<and> store (step (Loaded k) s1) = store s1 \<and>
           scheduled (step (Loaded k) s1) = scheduled s1"
    using load_not_found[OF assms(4,5)[folded s1_def] g1] by simp
  have vall: "list_all visit_only (Navigate i # evs1 @ Loaded k # evs2)"
    using assms(2,3) by (simp add: visit_only_def)
  have u3: "unwritten i (run (Navigate i # evs1 @ Loaded k # evs2) s)"
    by (rule unwritten_run[OF assms(1) vall])
  from a u3 unwritten_get[OF u3] show ?thesis
    unfolding s1_def by (simp add: unwritten_def loadAllDocuments_def store_getAll_def)
qed

text \<open>
  An instance: a change of the document \<open>a\<close> waits for its timer when the route changes to
  \<open>b\<close>; the save of \<open>a\<close> completes after the request for \<open>b\<close>.
\<close>

theorem not_found_seeding_witness:
  "unwritten ''b'' (run [Loaded 0, EditBody ''x''] (mount (Some ''a'') ''u'' [])) \<and>
   list_all visit_only [Advance 1000, SaveTimer] \<and>
   list_all visit_only [SaveOpened 0 Committed, Advance 1000, SaveTimer] \<and>
   0 < length (loading (run (Navigate ''b'' # [Advance 1000, SaveTimer])
                          (run [Loaded 0, EditBody ''x''] (mount (Some ''a'') ''u'' [])))) \<and>
   loading (run (Navigate ''b'' # [Advance 1000, SaveTimer])
              (run [Loaded 0, EditBody ''x''] (mount (Some ''a'') ''u'' []))) ! 0 = ''b'' \<and>
   document (step (Loaded 0) (run (Navigate ''b'' # [Advance 1000, SaveTimer])
              (run [Loaded 0, EditBody ''x''] (mount (Some ''a'') ''u'' [])))) = seed ''b'' \<and>
   list_all (\<lambda>d. docId d \<noteq> ''b'')
     (documents (loadAllDocuments (run (Navigate ''b'' # [Advance 1000, SaveTimer] @
                                 Loaded 0 # [SaveOpened 0 Committed, Advance 1000, SaveTimer])
              (run [Loaded 0, EditBody ''x''] (mount (Some ''a'') ''u'' [])))))"
proof -
  have h1: "unwritten ''b'' (run [Loaded 0, EditBody ''x''] (mount (Some ''a'') ''u'' []))"
    by code_simp
  have h2: "list_all visit_only [Advance 1000, SaveTimer]"
    by code_simp
  have h3: "list_all visit_only [SaveOpened 0 Committed, Advance 1000, SaveTimer]"
    by code_simp
  have h4: "0 < length (loading (run (Navigate ''b'' # [Advance 1000, SaveTimer])
                          (run [Loaded 0, EditBody ''x''] (mount (Some ''a'') ''u'' []))))"
    by code_simp
  have h5: "loading (run (Navigate ''b'' # [Advance 1000, SaveTimer])
              (run [Loaded 0, EditBody ''x''] (mount (Some ''a'') ''u'' []))) ! 0 = ''b''"
    by code_simp
  from not_found_seeding[OF h1 h2 h3 h4 h5] h1 h2 h3 h4 h5 show ?thesis by blast
qed

text \<open>
  The claim C6 fails at this input: the route changes to \<open>b\<close>, of which nothing is stored,
  and the placeholder document is loaded; the user saves by hand without an edit, and the
  placeholder document of \<open>b\<close> is among the records of \<^verbatim>\<open>getAll()\<close>.
\<close>

theorem visited_document_saved_manually:
  "store_get ''b'' (store (run [Loaded 0, Navigate ''b'', Loaded 0] (mount (Some ''a'') ''u'' []))) =
     None \<and>
   document (run [Loaded 0, Navigate ''b'', Loaded 0] (mount (Some ''a'') ''u'' [])) =
     \<lparr>docId = ''b'', title = ''Untitled Document'', body = []\<rparr> \<and>
   documents (loadAllDocuments
     (run [Loaded 0, Navigate ''b'', Loaded 0, ManualSave, Advance 1000, SaveTimer,
           SaveOpened 0 Committed] (mount (Some ''a'') ''u'' []))) =
     [\<lparr>docId = ''b'', title = ''Untitled Document'', body = []\<rparr>]"
  by code_simp

end
